theory Spec2Isabelle
  imports Complex_Main "HOL-Library.Sublist"
begin

section \<open>Python strings\<close>

text \<open>
  A Python \<open>str\<close> is modelled as a \<open>string\<close>: a list of characters, one per code point,
  so that \<open>len\<close> is \<open>length\<close>. \<open>isspace\<close> is the whitespace test that \<open>str.split()\<close> and
  \<open>str.strip()\<close> use, on the code points a \<open>char\<close> can hold (0 to 255): tab, line feed,
  vertical tab, form feed, carriage return, the four separators 28 to 31, space, next line
  (133) and no-break space (160).
\<close>

definition isspace :: "char \<Rightarrow> bool" where
  "isspace c = (of_char c \<in> {9, 10, 11, 12, 13, 28, 29, 30, 31, 32, 133, 160 :: nat})"

text \<open>
  \<open>text.split()\<close> with no argument: runs of whitespace separate the words, and no empty
  word is produced. \<open>split_from cur cs\<close> scans \<open>cs\<close> with the word read so far in \<open>cur\<close>.
\<close>

fun split_from :: "string \<Rightarrow> string \<Rightarrow> string list" where
  "split_from cur [] = (if cur = [] then [] else [cur])"
| "split_from cur (c # cs) =
     (if isspace c
      then (if cur = [] then split_from [] cs else cur # split_from [] cs)
      else split_from (cur @ [c]) cs)"

definition str_split :: "string \<Rightarrow> string list" where
  "str_split text = split_from [] text"

text \<open>\<open>sep.join(xs)\<close>\<close>

fun str_join :: "string \<Rightarrow> string list \<Rightarrow> string" where
  "str_join sep [] = []"
| "str_join sep [x] = x"
| "str_join sep (x # y # ys) = x @ sep @ str_join sep (y # ys)"

text \<open>\<open>s.strip()\<close>: whitespace removed at both ends.\<close>

definition str_strip :: "string \<Rightarrow> string" where
  "str_strip s = rev (dropWhile isspace (rev (dropWhile isspace s)))"

text \<open>\<open>a in b\<close> for two strings: \<open>a\<close> occurs in \<open>b\<close> as a contiguous run.\<close>

fun str_contains :: "string \<Rightarrow> string \<Rightarrow> bool" where
  "str_contains a [] = (a = [])"
| "str_contains a (c # cs) = (prefix a (c # cs) \<or> str_contains a cs)"


section \<open>Text segmenter: \<open>PDFService.chunk_text\<close>\<close>

text \<open>
  The \<open>for word in words\<close> loop of \<open>chunk_text\<close>, with its two mutable lists \<open>chunks\<close> and
  \<open>current_chunk\<close> passed as state. \<open>chunk_size\<close> is a Python \<open>int\<close>.
\<close>

fun chunk_loop :: "int \<Rightarrow> string list \<Rightarrow> string list \<Rightarrow> string list \<Rightarrow> string list \<times> string list" where
  "chunk_loop chunk_size [] chunks current_chunk = (chunks, current_chunk)"
| "chunk_loop chunk_size (word # words) chunks current_chunk =
     (if int (length (str_join '' '' (current_chunk @ [word]))) \<le> chunk_size
      then chunk_loop chunk_size words chunks (current_chunk @ [word])
      else chunk_loop chunk_size words (chunks @ [str_join '' '' current_chunk]) [word])"

definition chunk_text :: "string \<Rightarrow> int \<Rightarrow> string list" where
  "chunk_text text chunk_size =
     (case chunk_loop chunk_size (str_split text) [] [] of
        (chunks, current_chunk) \<Rightarrow>
          if current_chunk \<noteq> [] then chunks @ [str_join '' '' current_chunk] else chunks)"

section \<open>Python exceptions and dictionaries\<close>

text \<open>
  An exception is its class and the text that \<open>str(e)\<close> gives. \<open>BackendError\<close> stands for
  whatever an external service raises (the Qdrant client, the embedding model, the
  language model); \<open>PlainException\<close> is an instance of \<open>Exception\<close> itself.
\<close>

datatype exc_class =
  ValueError | KeyError | TypeError | AttributeError | ValidationError | BackendError | PlainException

datatype pyexc = Raise exc_class string

fun exc_str :: "pyexc \<Rightarrow> string" where
  "exc_str (Raise cls msg) = msg"

text \<open>
  \<open>try: body except Exception as e: handler(e)\<close>: the value of the body when it returns,
  the handler's outcome when it raises.
\<close>

definition try_except :: "pyexc + 'a \<Rightarrow> (pyexc \<Rightarrow> pyexc + 'a) \<Rightarrow> pyexc + 'a" where
  "try_except body handler = (case body of Inl e \<Rightarrow> handler e | Inr v \<Rightarrow> Inr v)"

text \<open>The values stored in \<open>metadata\<close> and \<open>payload\<close> dictionaries; a dictionary keeps its items in order.\<close>

datatype pyval = StrV string | IntV int

type_synonym pydict = "(string \<times> pyval) list"

text \<open>\<open>d.get(key, default)\<close>\<close>

definition dict_get :: "('k \<times> 'v) list \<Rightarrow> 'k \<Rightarrow> 'v \<Rightarrow> 'v" where
  "dict_get d key dflt = (case map_of d key of None \<Rightarrow> dflt | Some v \<Rightarrow> v)"

text \<open>\<open>d[key]\<close>, which raises \<open>KeyError\<close>; \<open>str\<close> of a \<open>KeyError\<close> is the key in quotes.\<close>

definition dict_item :: "(string \<times> 'v) list \<Rightarrow> string \<Rightarrow> pyexc + 'v" where
  "dict_item d key =
     (case map_of d key of
        None \<Rightarrow> Inl (Raise KeyError ([CHR 0x27] @ key @ [CHR 0x27]))
      | Some v \<Rightarrow> Inr v)"


section \<open>Vector index: \<open>QdrantService\<close>\<close>

text \<open>\<open>PDFChunk\<close> (models/pdf_processing.py); \<open>embedding\<close> is optional.\<close>

record PDFChunk =
  chunk_id :: string
  chunk_content :: string
  chunk_page_number :: int
  chunk_embedding :: "real list option"
  chunk_metadata :: pydict

text \<open>
  The client library's \<open>PointStruct\<close> and \<open>ScoredPoint\<close>, and the service's
  \<open>VectorSearchResult\<close> (models/qdrant_client.py). Vector components are floats in the
  source and reals here: the service only stores and forwards them.
\<close>

record PointStruct =
  point_id :: string
  point_vector :: "real list"
  point_payload :: pydict

record ScoredPoint =
  scored_id :: string
  scored_score :: real
  scored_payload :: pydict
  scored_vector :: "real list option"

record VectorSearchResult =
  result_id :: string
  result_score :: real
  result_payload :: pydict
  result_vector :: "real list option"

text \<open>
  The index behind the client: collections by name, each with its configured vector size
  and its points in insertion order.
\<close>

record collection =
  col_vector_size :: nat
  col_distance_metric :: string
  col_points :: "PointStruct list"

type_synonym index_state = "string \<Rightarrow> collection option"

text \<open>
  \<open>self.client\<close>, the external \<open>QdrantClient\<close>, is a parameter of the service: what
  \<open>client.upsert\<close> and \<open>client.search\<close> do to the index and whether they raise.
  \<open>client_search\<close> receives the filter dictionary (\<open>None\<close> when absent or empty) and
  stands for \<open>models.Filter(**filter)\<close> followed by \<open>client.search\<close>: both are library
  code inside the same \<open>try\<close>.
\<close>

record qdrant_client =
  client_upsert :: "string \<Rightarrow> PointStruct list \<Rightarrow> index_state \<Rightarrow> (pyexc + unit) \<times> index_state"
  client_search :: "string \<Rightarrow> real list \<Rightarrow> int \<Rightarrow> pydict option \<Rightarrow> index_state \<Rightarrow> pyexc + ScoredPoint list"

text \<open>
  The loop of \<open>upsert_vectors\<close> that builds the points. \<open>uuid4 i\<close> is the identifier the
  \<open>i\<close>-th call of \<open>uuid.uuid4()\<close> returns during this run. \<open>PointStruct\<close> requires a vector,
  so a chunk without embedding fails the library's validation.
\<close>

fun build_points :: "(nat \<Rightarrow> string) \<Rightarrow> nat \<Rightarrow> PDFChunk list \<Rightarrow> PointStruct list \<Rightarrow> pyexc + PointStruct list" where
  "build_points uuid4 i [] points = Inr points"
| "build_points uuid4 i (chunk # chunks) points =
     (case chunk_embedding chunk of
        None \<Rightarrow> Inl (Raise ValidationError ''1 validation error for PointStruct'')
      | Some v \<Rightarrow>
          build_points uuid4 (Suc i) chunks
            (points @ [\<lparr>point_id = uuid4 i, point_vector = v,
               point_payload =
                 [(''pdf_id'', dict_get (chunk_metadata chunk) ''pdf_id'' (StrV [])),
                  (''content'', StrV (chunk_content chunk)),
                  (''page_number'', IntV (chunk_page_number chunk)),
                  (''source'', dict_get (chunk_metadata chunk) ''source'' (StrV [])),
                  (''chunk_index'', dict_get (chunk_metadata chunk) ''chunk_index'' (IntV 0))]\<rparr>]))"

text \<open>
  \<open>upsert_vectors\<close>: the whole body is inside \<open>try\<close>, and the handler logs and returns
  \<open>False\<close>. The result is the returned value (or a raised exception) and the index.
\<close>

definition upsert_vectors ::
  "qdrant_client \<Rightarrow> (nat \<Rightarrow> string) \<Rightarrow> string \<Rightarrow> PDFChunk list \<Rightarrow> index_state \<Rightarrow> (pyexc + bool) \<times> index_state" where
  "upsert_vectors client uuid4 collection_name chunks st =
     (case build_points uuid4 0 chunks [] of
        Inl e \<Rightarrow> (Inr False, st)
      | Inr points \<Rightarrow>
          (case client_upsert client collection_name points st of
             (Inl e, st') \<Rightarrow> (Inr False, st')
           | (Inr u, st') \<Rightarrow> (Inr True, st')))"

text \<open>
  The loop of \<open>search_similar\<close> over the client's results.
  \<open>result.vector.tolist() if result.vector else None\<close>: an absent or empty vector gives
  \<open>None\<close>; a non-empty one is a Python list, which has no \<open>tolist\<close>.
\<close>

fun convert_results :: "ScoredPoint list \<Rightarrow> VectorSearchResult list \<Rightarrow> pyexc + VectorSearchResult list" where
  "convert_results [] results = Inr results"
| "convert_results (result # search_result) results =
     (if scored_vector result = None \<or> scored_vector result = Some []
      then convert_results search_result
             (results @ [\<lparr>result_id = scored_id result, result_score = scored_score result,
                          result_payload = scored_payload result, result_vector = None\<rparr>])
      else Inl (Raise AttributeError ''list object has no attribute tolist''))"

definition search_similar ::
  "qdrant_client \<Rightarrow> string \<Rightarrow> real list \<Rightarrow> int \<Rightarrow> pydict option \<Rightarrow> index_state \<Rightarrow> pyexc + VectorSearchResult list" where
  "search_similar client collection_name query_vector limit filter_arg st =
     try_except
       (case client_search client collection_name query_vector limit
               (if filter_arg = Some [] then None else filter_arg) st of
          Inl e \<Rightarrow> Inl e
        | Inr search_result \<Rightarrow> convert_results search_result [])
       (\<lambda>e. Inr [])"

text \<open>
  Modelled from the spec: the vector index service itself (the Qdrant server reached
  through \<open>QdrantClient\<close>), which is not part of the repository. A collection has a fixed
  vector dimension and every upserted vector must have that length; there is at most one
  collection per name; a point is stored under its id, a later point with the same id
  replacing the earlier one; a search ranks the stored points by similarity, descending,
  ties in insertion order, and a missing collection is an error of the backend. The
  similarity \<open>sim\<close> of the collection's metric is a parameter. The specification does
  not say what a batch rejected for a wrong vector length leaves in the index (nothing, or
  the points that came before the bad one), so the index after a rejected batch is a
  parameter too, \<open>on_reject\<close>. It is used to run the service on concrete indexes.
\<close>

definition put_point :: "PointStruct list \<Rightarrow> PointStruct \<Rightarrow> PointStruct list" where
  "put_point ps p =
     (if point_id p \<in> set (map point_id ps)
      then map (\<lambda>q. if point_id q = point_id p then p else q) ps
      else ps @ [p])"

definition mem_upsert ::
  "(string \<Rightarrow> PointStruct list \<Rightarrow> index_state \<Rightarrow> index_state) \<Rightarrow>
   string \<Rightarrow> PointStruct list \<Rightarrow> index_state \<Rightarrow> (pyexc + unit) \<times> index_state" where
  "mem_upsert on_reject name pts st =
     (case st name of
        None \<Rightarrow> (Inl (Raise BackendError ''Not found: collection does not exist''), st)
      | Some col \<Rightarrow>
          if list_all (\<lambda>p. length (point_vector p) = col_vector_size col) pts
          then (Inr (), st(name \<mapsto> col\<lparr>col_points := foldl put_point (col_points col) pts\<rparr>))
          else (Inl (Raise BackendError ''Wrong input: vector dimension error''),
                on_reject name pts st))"

definition payload_matches :: "pydict option \<Rightarrow> PointStruct \<Rightarrow> bool" where
  "payload_matches flt p =
     (case flt of
        None \<Rightarrow> True
      | Some conds \<Rightarrow> list_all (\<lambda>(k, v). map_of (point_payload p) k = Some v) conds)"

definition mem_search ::
  "(real list \<Rightarrow> real list \<Rightarrow> real) \<Rightarrow> string \<Rightarrow> real list \<Rightarrow> int \<Rightarrow> pydict option \<Rightarrow> index_state \<Rightarrow> pyexc + ScoredPoint list" where
  "mem_search sim name query_vector limit flt st =
     (case st name of
        None \<Rightarrow> Inl (Raise BackendError ''Not found: collection does not exist'')
      | Some col \<Rightarrow>
          if length query_vector = col_vector_size col
          then Inr (take (nat limit)
                 (sort_key (\<lambda>r. - scored_score r)
                    (map (\<lambda>p. \<lparr>scored_id = point_id p, scored_score = sim query_vector (point_vector p),
                                scored_payload = point_payload p, scored_vector = None\<rparr>)
                       (filter (payload_matches flt) (col_points col)))))
          else Inl (Raise BackendError ''Wrong input: vector dimension error''))"

definition mem_client ::
  "(real list \<Rightarrow> real list \<Rightarrow> real) \<Rightarrow>
   (string \<Rightarrow> PointStruct list \<Rightarrow> index_state \<Rightarrow> index_state) \<Rightarrow> qdrant_client" where
  "mem_client sim on_reject =
     \<lparr>client_upsert = mem_upsert on_reject, client_search = mem_search sim\<rparr>"

section \<open>Dialogue synthesizer: \<open>GeminiService\<close>\<close>

text \<open>
  The models of models/gemini_client.py. The wall-clock fields (\<open>timestamp\<close>, \<open>created_at\<close>,
  \<open>updated_at\<close>, each set from \<open>datetime.now()\<close>) are left out: nothing reads them.
\<close>

record PodcastAgent =
  agent_id :: string
  agent_name :: string
  agent_role :: string
  agent_personality :: string
  agent_voice_id :: string

record PodcastMessage =
  msg_agent_id :: string
  msg_content :: string
  msg_is_user_message :: bool

record PodcastConversation =
  conv_id :: string
  conv_pdf_id :: string
  conv_title :: string
  conv_agents :: "PodcastAgent list"
  conv_messages :: "PodcastMessage list"
  conv_status :: string

record GeminiGenerationRequest =
  req_pdf_id :: string
  req_query :: "string option"
  req_context :: "string option"
  req_agent_configs :: "(string \<times> string) list list"

text \<open>\<open>conversation_history[-5:]\<close>: the last five messages, or all of them when there are fewer.\<close>

definition last5 :: "'a list \<Rightarrow> 'a list" where
  "last5 xs = drop (length xs - 5) xs"

definition history_text :: "PodcastMessage list \<Rightarrow> string" where
  "history_text conversation_history =
     str_join [CHR 0x0A]
       (map (\<lambda>msg. msg_agent_id msg @ '': '' @ msg_content msg) (last5 conversation_history))"

text \<open>The prompt, a triple-quoted f-string whose lines are indented by twelve spaces.\<close>

definition agent_prompt :: "PodcastAgent \<Rightarrow> string \<Rightarrow> string \<Rightarrow> string" where
  "agent_prompt agent context history =
     [CHR 0x0A] @
     replicate 12 CHR '' '' @ ''You are '' @ agent_name agent @ '', a '' @ agent_role agent @
       '' with the following personality: '' @ agent_personality agent @ ''.'' @ [CHR 0x0A] @
     replicate 12 CHR '' '' @ ''Current conversation context: '' @ context @ [CHR 0x0A] @
     replicate 12 CHR '' '' @ ''Conversation history:'' @ [CHR 0x0A] @
     replicate 12 CHR '' '' @ history @ [CHR 0x0A] @
     [CHR 0x0A] @
     replicate 12 CHR '' '' @
       ''Please generate a response that is appropriate for your role and personality.'' @ [CHR 0x0A] @
     replicate 12 CHR '' '' @
       ''Keep responses concise but informative, typically 1-3 sentences.'' @ [CHR 0x0A] @
     replicate 12 CHR '' ''"

text \<open>
  \<open>generate_agent_response\<close>. \<open>generate_content prompt\<close> is what this call of
  \<open>self.model.generate_content(prompt).text\<close> gives: the generated text, or the exception
  the language model raises.
\<close>

definition generate_agent_response ::
  "(string \<Rightarrow> pyexc + string) \<Rightarrow> PodcastAgent \<Rightarrow> string \<Rightarrow> PodcastMessage list \<Rightarrow> pyexc + string" where
  "generate_agent_response generate_content agent context conversation_history =
     try_except
       (case generate_content (agent_prompt agent context (history_text conversation_history)) of
          Inl e \<Rightarrow> Inl e
        | Inr response_text \<Rightarrow> Inr (str_strip response_text))
       (\<lambda>e. Inr (''Sorry, I encountered an error generating a response. '' @ exc_str e))"

text \<open>
  \<open>_get_conversation_context\<close>. \<open>encode query\<close> is
  \<open>SentenceTransformer('all-MiniLM-L6-v2').encode([query])[0].tolist()\<close>, which may raise;
  \<open>QDRANT_COLLECTION\<close> is the configured collection name. \<open>if query\<close> holds for a query
  that is neither \<open>None\<close> nor empty.
\<close>

fun payload_contents :: "VectorSearchResult list \<Rightarrow> pyexc + pyval list" where
  "payload_contents [] = Inr []"
| "payload_contents (result # results) =
     (case dict_item (result_payload result) ''content'' of
        Inl e \<Rightarrow> Inl e
      | Inr v \<Rightarrow> (case payload_contents results of Inl e \<Rightarrow> Inl e | Inr vs \<Rightarrow> Inr (v # vs)))"

text \<open>\<open>"\n\n".join(context_chunks)\<close>, a \<open>TypeError\<close> when an item is not a string.\<close>

fun str_items :: "pyval list \<Rightarrow> pyexc + string list" where
  "str_items [] = Inr []"
| "str_items (StrV s # vs) = (case str_items vs of Inl e \<Rightarrow> Inl e | Inr ss \<Rightarrow> Inr (s # ss))"
| "str_items (IntV n # vs) = Inl (Raise TypeError ''sequence item: expected str instance, int found'')"

definition get_conversation_context ::
  "(string \<Rightarrow> pyexc + real list) \<Rightarrow> qdrant_client \<Rightarrow> index_state \<Rightarrow> string \<Rightarrow> string \<Rightarrow> string option \<Rightarrow> pyexc + string" where
  "get_conversation_context encode client st QDRANT_COLLECTION pdf_id query =
     try_except
       (case query of
          None \<Rightarrow> Inr (''Context from PDF '' @ pdf_id @ '' about various topics.'')
        | Some q \<Rightarrow>
            if q \<noteq> [] then
              (case encode q of
                 Inl e \<Rightarrow> Inl e
               | Inr query_embedding \<Rightarrow>
                   (case search_similar client QDRANT_COLLECTION query_embedding 5 None st of
                      Inl e \<Rightarrow> Inl e
                    | Inr results \<Rightarrow>
                        (case payload_contents results of
                           Inl e \<Rightarrow> Inl e
                         | Inr context_chunks \<Rightarrow>
                             (case str_items context_chunks of
                                Inl e \<Rightarrow> Inl e
                              | Inr ss \<Rightarrow> Inr (str_join [CHR 0x0A, CHR 0x0A] ss)))))
            else Inr (''Context from PDF '' @ pdf_id @ '' about various topics.''))
       (\<lambda>e. Inr ''General context about the PDF content.'')"

text \<open>\<open>query or default\<close>\<close>

definition query_or :: "string option \<Rightarrow> string \<Rightarrow> string" where
  "query_or query dflt = (case query of None \<Rightarrow> dflt | Some q \<Rightarrow> if q = [] then dflt else q)"

text \<open>
  The \<open>for i in range(5)\<close> loop of \<open>_generate_conversation_flow\<close>, with \<open>n\<close> rounds left.
  \<open>model k\<close> is the outcome of the \<open>k\<close>-th call of the language model in this
  conversation, as a function of the prompt; the loop makes two calls per round.
  \<open>messages\<close> and \<open>conversation_history\<close> are the two lists the source appends to.
\<close>

fun exchange_loop ::
  "(nat \<Rightarrow> string \<Rightarrow> pyexc + string) \<Rightarrow> PodcastAgent \<Rightarrow> PodcastAgent \<Rightarrow> string \<Rightarrow> nat \<Rightarrow> nat \<Rightarrow>
   PodcastMessage list \<Rightarrow> PodcastMessage list \<Rightarrow> pyexc + PodcastMessage list" where
  "exchange_loop model explainer curious context 0 k messages conversation_history = Inr messages"
| "exchange_loop model explainer curious context (Suc n) k messages conversation_history =
     (case generate_agent_response (model k) explainer context conversation_history of
        Inl e \<Rightarrow> Inl e
      | Inr explainer_response \<Rightarrow>
          (let explainer_message =
                 \<lparr>msg_agent_id = agent_id explainer, msg_content = explainer_response,
                  msg_is_user_message = False\<rparr>
           in case generate_agent_response (model (Suc k)) curious context
                     (conversation_history @ [explainer_message]) of
                Inl e \<Rightarrow> Inl e
              | Inr followup_question \<Rightarrow>
                  (let followup_message =
                         \<lparr>msg_agent_id = agent_id curious, msg_content = followup_question,
                          msg_is_user_message = False\<rparr>
                   in exchange_loop model explainer curious context n (Suc (Suc k))
                        (messages @ [explainer_message, followup_message])
                        (conversation_history @ [explainer_message, followup_message]))))"

text \<open>
  \<open>_generate_conversation_flow\<close>. \<open>next((a for a in agents if a.role == r), None)\<close> is the
  first agent with that role. The source also looks up the \<open>user\<close> agent and never uses it.
\<close>

definition generate_conversation_flow ::
  "(nat \<Rightarrow> string \<Rightarrow> pyexc + string) \<Rightarrow> PodcastAgent list \<Rightarrow> string \<Rightarrow> string option \<Rightarrow> pyexc + PodcastMessage list" where
  "generate_conversation_flow model agents context query =
     (case (find (\<lambda>a. agent_role a = ''explainer'') agents,
            find (\<lambda>a. agent_role a = ''curious'') agents) of
        (Some explainer, Some curious) \<Rightarrow>
          (let initial_message =
                 \<lparr>msg_agent_id = agent_id curious,
                  msg_content = ''What can you tell me about '' @ query_or query ''this PDF content'' @ ''?'',
                  msg_is_user_message = False\<rparr>
           in exchange_loop model explainer curious context 5 0 [initial_message] [initial_message])
      | _ \<Rightarrow> Inl (Raise ValueError ''Explainer and curious agents must be present''))"

text \<open>
  The loop of \<open>generate_podcast_conversation\<close> that builds the agents, the \<open>i\<close>-th with the
  \<open>i\<close>-th identifier drawn; a configuration without \<open>name\<close>, \<open>role\<close> or \<open>personality\<close>
  raises \<open>KeyError\<close>.
\<close>

fun init_agents :: "(nat \<Rightarrow> string) \<Rightarrow> nat \<Rightarrow> (string \<times> string) list list \<Rightarrow> PodcastAgent list \<Rightarrow> pyexc + PodcastAgent list" where
  "init_agents uuid4 i [] agents = Inr agents"
| "init_agents uuid4 i (agent_config # agent_configs) agents =
     (case dict_item agent_config ''name'' of
        Inl e \<Rightarrow> Inl e
      | Inr name \<Rightarrow>
          (case dict_item agent_config ''role'' of
             Inl e \<Rightarrow> Inl e
           | Inr role \<Rightarrow>
               (case dict_item agent_config ''personality'' of
                  Inl e \<Rightarrow> Inl e
                | Inr personality \<Rightarrow>
                    init_agents uuid4 (Suc i) agent_configs
                      (agents @ [\<lparr>agent_id = uuid4 i, agent_name = name, agent_role = role,
                                  agent_personality = personality,
                                  agent_voice_id = dict_get agent_config ''voice_id'' ''default''\<rparr>]))))"

text \<open>
  \<open>generate_podcast_conversation\<close>: any exception of the body is raised again as a plain
  \<open>Exception\<close> with the prefixed text.
\<close>

definition generate_podcast_conversation ::
  "(nat \<Rightarrow> string \<Rightarrow> pyexc + string) \<Rightarrow> (string \<Rightarrow> pyexc + real list) \<Rightarrow> qdrant_client \<Rightarrow> index_state \<Rightarrow>
   string \<Rightarrow> (nat \<Rightarrow> string) \<Rightarrow> GeminiGenerationRequest \<Rightarrow> pyexc + PodcastConversation" where
  "generate_podcast_conversation model encode client st QDRANT_COLLECTION uuid4 request =
     try_except
       (case init_agents uuid4 0 (req_agent_configs request) [] of
          Inl e \<Rightarrow> Inl e
        | Inr agents \<Rightarrow>
            (case get_conversation_context encode client st QDRANT_COLLECTION
                    (req_pdf_id request) (req_query request) of
               Inl e \<Rightarrow> Inl e
             | Inr context \<Rightarrow>
                 (case generate_conversation_flow model agents context (req_query request) of
                    Inl e \<Rightarrow> Inl e
                  | Inr messages \<Rightarrow>
                      Inr \<lparr>conv_id = uuid4 (length agents),
                           conv_pdf_id = req_pdf_id request,
                           conv_title = ''Podcast about '' @ query_or (req_query request) ''PDF content'',
                           conv_agents = agents,
                           conv_messages = messages,
                           conv_status = ''completed''\<rparr>)))
       (\<lambda>e. Inl (Raise PlainException (''Failed to generate podcast conversation: '' @ exc_str e)))"

section \<open>Concrete inputs\<close>

text \<open>
  Inputs on which the operations above are run below: an index with one empty collection
  of dimension 4, a chunk that fits it and one that does not, two sequences of
  identifiers as two runs of \<open>uuid.uuid4()\<close> draw them, a set of agents, and external
  services that answer or fail.
\<close>

definition dot_product :: "real list \<Rightarrow> real list \<Rightarrow> real" where
  "dot_product a b = sum_list (map (\<lambda>(x, y). x * y) (zip a b))"

text \<open>
  A backend that stores the points of a rejected batch up to the first one of a wrong
  length.
\<close>

definition keep_valid_prefix :: "string \<Rightarrow> PointStruct list \<Rightarrow> index_state \<Rightarrow> index_state" where
  "keep_valid_prefix name pts st =
     (case st name of
        None \<Rightarrow> st
      | Some col \<Rightarrow>
          st(name \<mapsto> col\<lparr>col_points :=
               foldl put_point (col_points col)
                 (takeWhile (\<lambda>p. length (point_vector p) = col_vector_size col) pts)\<rparr>))"

definition example_collection :: collection where
  "example_collection = \<lparr>col_vector_size = 4, col_distance_metric = ''Cosine'', col_points = []\<rparr>"

definition example_index :: index_state where
  "example_index = Map.empty(''docs'' \<mapsto> example_collection)"

definition example_chunk3 :: PDFChunk where
  "example_chunk3 =
     \<lparr>chunk_id = ''1'', chunk_content = ''Sample content for testing'', chunk_page_number = 1,
      chunk_embedding = Some [1, 2, 3], chunk_metadata = [(''source'', StrV ''test.pdf'')]\<rparr>"

definition example_chunk4 :: PDFChunk where
  "example_chunk4 =
     \<lparr>chunk_id = ''2'', chunk_content = ''Another test content'', chunk_page_number = 2,
      chunk_embedding = Some [5, 6, 7, 8], chunk_metadata = [(''source'', StrV ''test.pdf'')]\<rparr>"

definition uuid_a :: "nat \<Rightarrow> string" where
  "uuid_a i = CHR ''a'' # replicate i CHR ''0''"

definition uuid_b :: "nat \<Rightarrow> string" where
  "uuid_b i = CHR ''b'' # replicate i CHR ''0''"

definition example_agents :: "PodcastAgent list" where
  "example_agents =
     [\<lparr>agent_id = ''e1'', agent_name = ''Ann'', agent_role = ''explainer'',
       agent_personality = ''calm'', agent_voice_id = ''v1''\<rparr>,
      \<lparr>agent_id = ''c1'', agent_name = ''Bob'', agent_role = ''curious'',
       agent_personality = ''keen'', agent_voice_id = ''v2''\<rparr>]"

definition explainer_only :: "PodcastAgent list" where
  "explainer_only =
     [\<lparr>agent_id = ''e1'', agent_name = ''Ann'', agent_role = ''explainer'',
       agent_personality = ''calm'', agent_voice_id = ''v1''\<rparr>]"

definition failing_model :: "nat \<Rightarrow> string \<Rightarrow> pyexc + string" where
  "failing_model k prompt = Inl (Raise BackendError ''quota exceeded'')"

definition flaky_model :: "nat \<Rightarrow> string \<Rightarrow> pyexc + string" where
  "flaky_model k prompt =
     (if k = 2 then Inl (Raise BackendError ''quota exceeded'') else Inr '' Sure. '')"

definition failing_encode :: "string \<Rightarrow> pyexc + real list" where
  "failing_encode q = Inl (Raise BackendError ''model not available'')"

definition example_encode :: "string \<Rightarrow> pyexc + real list" where
  "example_encode q = Inr [1, 0, 0, 0]"

definition example_request :: GeminiGenerationRequest where
  "example_request =
     \<lparr>req_pdf_id = ''doc-1'', req_query = Some ''topic'', req_context = None,
      req_agent_configs =
        [[(''name'', ''Ann''), (''role'', ''explainer''), (''personality'', ''calm'')],
         [(''name'', ''Bob''), (''role'', ''curious''), (''personality'', ''keen'')]]\<rparr>"

definition request_without_curious :: GeminiGenerationRequest where
  "request_without_curious =
     \<lparr>req_pdf_id = ''doc-1'', req_query = Some ''topic'', req_context = None,
      req_agent_configs =
        [[(''name'', ''Ann''), (''role'', ''explainer''), (''personality'', ''calm'')],
         [(''name'', ''You''), (''role'', ''user''), (''personality'', ''asks'')]]\<rparr>"

section \<open>Properties of the text segmenter\<close>

lemma str_join_append:
  "xs \<noteq> [] \<Longrightarrow> ys \<noteq> [] \<Longrightarrow> str_join sep (xs @ ys) = str_join sep xs @ sep @ str_join sep ys"
  by (induction sep xs rule: str_join.induct) (auto simp: neq_Nil_conv)

lemma str_join_concat:
  "\<forall>g\<in>set gs. g \<noteq> [] \<Longrightarrow> str_join sep (map (str_join sep) gs) = str_join sep (concat gs)"
proof (induction gs)
  case Nil
  then show ?case by simp
next
  case (Cons g gs)
  show ?case
  proof (cases gs)
    case Nil
    then show ?thesis by simp
  next
    case (Cons h hs)
    with Cons.prems have ne: "g \<noteq> []" "concat gs \<noteq> []" by auto
    have "str_join sep (map (str_join sep) (g # gs)) =
            str_join sep g @ sep @ str_join sep (map (str_join sep) gs)"
      using Cons by simp
    also have "\<dots> = str_join sep g @ sep @ str_join sep (concat gs)"
      using Cons.IH Cons.prems by simp
    also have "\<dots> = str_join sep (concat (g # gs))"
      using ne by (simp add: str_join_append)
    finally show ?thesis .
  qed
qed

text \<open>
  The loop invariant behind the size bound: every sealed chunk, and the chunk being
  built, either fits \<open>n\<close> or is one of the words \<open>W\<close>.
\<close>

lemma chunk_loop_bound:
  assumes "chunk_loop n ws chunks cur = (chunks', cur')"
    and "0 \<le> n"
    and "\<forall>c\<in>set chunks. int (length c) \<le> n \<or> c \<in> W"
    and "int (length (str_join '' '' cur)) \<le> n \<or> (\<exists>w\<in>W. cur = [w])"
    and "set ws \<subseteq> W"
  shows "(\<forall>c\<in>set chunks'. int (length c) \<le> n \<or> c \<in> W) \<and>
         (int (length (str_join '' '' cur')) \<le> n \<or> (\<exists>w\<in>W. cur' = [w]))"
  using assms
proof (induction n ws chunks cur rule: chunk_loop.induct)
  case (1 n chunks cur)
  then show ?case by simp
next
  case (2 n word words chunks cur)
  show ?case
  proof (cases "int (length (str_join '' '' (cur @ [word]))) \<le> n")
    case True
    with 2 show ?thesis by simp
  next
    case False
    have sealed: "int (length (str_join '' '' cur)) \<le> n \<or> str_join '' '' cur \<in> W"
      using "2.prems"(4) by auto
    have "chunk_loop n words (chunks @ [str_join '' '' cur]) [word] = (chunks', cur')"
      using "2.prems"(1) False by simp
    moreover have "\<forall>c\<in>set (chunks @ [str_join '' '' cur]). int (length c) \<le> n \<or> c \<in> W"
      using "2.prems"(3) sealed by auto
    moreover have "int (length (str_join '' '' [word])) \<le> n \<or> (\<exists>w\<in>W. [word] = [w])"
      using "2.prems"(5) by simp
    moreover have "set words \<subseteq> W"
      using "2.prems"(5) by simp
    ultimately show ?thesis
      using "2.IH"(2)[OF False] "2.prems"(2) by blast
  qed
qed

text \<open>
  Once the chunk being built is not empty, every chunk sealed from then on is the join of
  a non-empty group of consecutive words, and no word is lost.
\<close>

lemma chunk_loop_groups:
  assumes "chunk_loop n ws chunks cur = (chunks', cur')" and "cur \<noteq> []"
  shows "\<exists>gs. chunks' = chunks @ map (str_join '' '') gs \<and> (\<forall>g\<in>set gs. g \<noteq> []) \<and>
              cur' \<noteq> [] \<and> concat gs @ cur' = cur @ ws"
  using assms
proof (induction n ws chunks cur rule: chunk_loop.induct)
  case (1 n chunks cur)
  then show ?case by simp
next
  case (2 n word words chunks cur)
  show ?case
  proof (cases "int (length (str_join '' '' (cur @ [word]))) \<le> n")
    case True
    then have "chunk_loop n words chunks (cur @ [word]) = (chunks', cur')"
      using "2.prems"(1) by simp
    from "2.IH"(1)[OF True this] show ?thesis by simp
  next
    case False
    then have "chunk_loop n words (chunks @ [str_join '' '' cur]) [word] = (chunks', cur')"
      using "2.prems"(1) by simp
    from "2.IH"(2)[OF False this] obtain gs where
      gs: "chunks' = (chunks @ [str_join '' '' cur]) @ map (str_join '' '') gs"
          "\<forall>g\<in>set gs. g \<noteq> []" "cur' \<noteq> []" "concat gs @ cur' = [word] @ words"
      by auto
    have "chunks' = chunks @ map (str_join '' '') (cur # gs)"
      using gs(1) by simp
    moreover have "\<forall>g\<in>set (cur # gs). g \<noteq> []"
      using gs(2) "2.prems"(2) by simp
    moreover have "concat (cur # gs) @ cur' = cur @ word # words"
      using gs(4) by simp
    ultimately show ?thesis using gs(3) by blast
  qed
qed

text \<open>
  When the first word fits the limit (or the text has no word), joining the chunks gives
  back the words joined by single spaces.
\<close>

lemma chunk_text_join_first_fits:
  assumes "str_split text = [] \<or> int (length (hd (str_split text))) \<le> max_chars"
  shows "str_join '' '' (chunk_text text max_chars) = str_join '' '' (str_split text)"
proof (cases "str_split text")
  case Nil
  then show ?thesis by (simp add: chunk_text_def)
next
  case (Cons w ws)
  with assms have fits: "int (length w) \<le> max_chars" by simp
  obtain chunks cur where loop: "chunk_loop max_chars ws [] [w] = (chunks, cur)"
    by (cases "chunk_loop max_chars ws [] [w]")
  from chunk_loop_groups[OF loop] obtain gs where
    gs: "chunks = map (str_join '' '') gs" "\<forall>g\<in>set gs. g \<noteq> []" "cur \<noteq> []"
        "concat gs @ cur = w # ws"
    by auto
  have "chunk_text text max_chars = map (str_join '' '') (gs @ [cur])"
    using Cons fits loop gs(1,3) by (simp add: chunk_text_def)
  moreover have "\<forall>g\<in>set (gs @ [cur]). g \<noteq> []"
    using gs(2,3) by simp
  ultimately have "str_join '' '' (chunk_text text max_chars) = str_join '' '' (concat (gs @ [cur]))"
    using str_join_concat by metis
  then show ?thesis using gs(4) Cons by simp
qed

text \<open>
  The words that \<open>split\<close> returns are not empty and hold no whitespace, and splitting the
  words joined by single spaces gives the words back.
\<close>

lemma split_from_words:
  "\<forall>c\<in>set cur. \<not> isspace c \<Longrightarrow> \<forall>w\<in>set (split_from cur cs). w \<noteq> [] \<and> (\<forall>c\<in>set w. \<not> isspace c)"
proof (induction cs arbitrary: cur)
  case Nil
  then show ?case by simp
next
  case (Cons c cs)
  show ?case
  proof (cases "isspace c")
    case True
    have rest: "\<forall>w\<in>set (split_from [] cs). w \<noteq> [] \<and> (\<forall>c\<in>set w. \<not> isspace c)"
      using Cons.IH[of "[]"] by simp
    show ?thesis
    proof (cases "cur = []")
      case True
      with \<open>isspace c\<close> rest show ?thesis by simp
    next
      case False
      with \<open>isspace c\<close> rest Cons.prems show ?thesis by simp
    qed
  next
    case False
    have "\<forall>w\<in>set (split_from (cur @ [c]) cs). w \<noteq> [] \<and> (\<forall>c\<in>set w. \<not> isspace c)"
      using Cons.IH[of "cur @ [c]"] Cons.prems False by simp
    with False show ?thesis by simp
  qed
qed

lemma split_from_word:
  "\<forall>c\<in>set w. \<not> isspace c \<Longrightarrow> split_from cur (w @ rest) = split_from (cur @ w) rest"
  by (induction w arbitrary: cur) auto

lemma isspace_space: "isspace CHR '' ''"
  by (simp add: isspace_def)

lemma str_split_join:
  "\<forall>w\<in>set ws. w \<noteq> [] \<and> (\<forall>c\<in>set w. \<not> isspace c) \<Longrightarrow> split_from [] (str_join '' '' ws) = ws"
proof (induction "'' ''" ws rule: str_join.induct)
  case 1
  then show ?case by simp
next
  case (2 x)
  then show ?case using split_from_word[of x "[]" "[]"] by simp
next
  case (3 x y ys)
  have "split_from [] (x @ '' '' @ str_join '' '' (y # ys)) = split_from x ('' '' @ str_join '' '' (y # ys))"
    using 3(2) split_from_word[of x "[]"] by simp
  also have "\<dots> = x # split_from [] (str_join '' '' (y # ys))"
    using 3(2) by (simp add: isspace_space)
  also have "\<dots> = x # y # ys" using 3 by simp
  finally show ?case by simp
qed

text \<open>
  The chunks are the joins of non-empty groups of consecutive words, after an empty chunk
  when the first word does not fit.
\<close>

lemma chunk_text_groups:
  assumes "str_split text \<noteq> []"
  shows "\<exists>gs. (\<forall>g\<in>set gs. g \<noteq> []) \<and> gs \<noteq> [] \<and> concat gs = str_split text \<and>
           (chunk_text text n = map (str_join '' '') gs \<or>
            chunk_text text n = [] # map (str_join '' '') gs)"
proof -
  from assms obtain w ws where words: "str_split text = w # ws" by (cases "str_split text") auto
  define start where "start = (if int (length w) \<le> n then [] else [[]::string])"
  obtain chunks cur where loop: "chunk_loop n ws start [w] = (chunks, cur)"
    by (cases "chunk_loop n ws start [w]")
  from chunk_loop_groups[OF loop] obtain gs where
    gs: "chunks = start @ map (str_join '' '') gs" "\<forall>g\<in>set gs. g \<noteq> []" "cur \<noteq> []"
        "concat gs @ cur = w # ws"
    by auto
  have "chunk_loop n (str_split text) [] [] = (chunks, cur)"
    using words loop by (auto simp: start_def split: if_splits)
  then have "chunk_text text n = start @ map (str_join '' '') (gs @ [cur])"
    using gs(1,3) by (simp add: chunk_text_def)
  then have "chunk_text text n = map (str_join '' '') (gs @ [cur]) \<or>
            chunk_text text n = [] # map (str_join '' '') (gs @ [cur])"
    by (auto simp: start_def split: if_splits)
  moreover have "\<forall>g\<in>set (gs @ [cur]). g \<noteq> []" using gs(2,3) by simp
  moreover have "concat (gs @ [cur]) = str_split text" using gs(4) words by simp
  ultimately show ?thesis by (intro exI[of _ "gs @ [cur]"]) simp
qed

text \<open>
  Read up to whitespace, nothing is lost: the joined chunks split into the words of the
  text, for every limit.
\<close>

lemma chunk_text_same_words:
  "str_split (str_join '' '' (chunk_text text n)) = str_split text"
proof (cases "str_split text = []")
  case True
  then show ?thesis by (simp add: chunk_text_def str_split_def)
next
  case False
  from chunk_text_groups[OF False, of n] obtain gs where
    gs: "\<forall>g\<in>set gs. g \<noteq> []" "gs \<noteq> []" "concat gs = str_split text"
    and shape: "chunk_text text n = map (str_join '' '') gs \<or>
            chunk_text text n = [] # map (str_join '' '') gs"
    by blast
  have words: "\<forall>w\<in>set (str_split text). w \<noteq> [] \<and> (\<forall>c\<in>set w. \<not> isspace c)"
    unfolding str_split_def using split_from_words[of "[]"] by simp
  have joined: "str_join '' '' (map (str_join '' '') gs) = str_join '' '' (str_split text)"
    using str_join_concat[OF gs(1)] gs(3) by simp
  have resplit: "str_split (str_join '' '' (str_split text)) = str_split text"
    using str_split_join[OF words] by (simp only: str_split_def)
  have lead: "str_split ('' '' @ s) = str_split s" for s
    by (simp add: str_split_def isspace_space)
  from shape show ?thesis
  proof
    assume "chunk_text text n = map (str_join '' '') gs"
    then have "str_join '' '' (chunk_text text n) = str_join '' '' (str_split text)"
      using joined by (simp only:)
    then show ?thesis using resplit by (simp only:)
  next
    assume a: "chunk_text text n = [] # map (str_join '' '') gs"
    obtain g gs' where "gs = g # gs'" using gs(2) by (cases gs) auto
    then have "str_join '' '' ([] # map (str_join '' '') gs) = '' '' @ str_join '' '' (map (str_join '' '') gs)"
      by simp
    then have "str_join '' '' (chunk_text text n) = '' '' @ str_join '' '' (str_split text)"
      using a joined by (simp only:)
    then show ?thesis using resplit lead by (simp only:)
  qed
qed

text \<open>The scenario of the specification.\<close>

lemma chunk_text_scenario: "chunk_text ''a b c d e'' 3 = [''a b'', ''c d'', ''e'']"
  by (simp add: chunk_text_def str_split_def isspace_def)

text \<open>
  C1. Claim: for every text and every \<open>max_chars \<ge> 1\<close>, joining the chunks with single
  spaces yields exactly the whitespace-collapsed text. The code does not do this when the
  first word is longer than \<open>max_chars\<close>: the loop seals the still empty \<open>current_chunk\<close>,
  so the result starts with an empty chunk and the joined text with a space. The final
  emission of the same function guards against an empty chunk (\<open>if current_chunk\<close>); the
  emission inside the loop does not. The claim holds when the first word fits
  (\<open>chunk_text_join_first_fits\<close>), and always up to that leading space
  (\<open>chunk_text_same_words\<close>).
\<close>

theorem chunk_text_empty_first_chunk:
  "chunk_text ''hello'' 3 = [[], ''hello''] \<and>
   str_join '' '' (chunk_text ''hello'' 3) = '' hello'' \<and>
   str_join '' '' (str_split ''hello'') = ''hello''"
  by (simp add: chunk_text_def str_split_def isspace_def)

text \<open>
  C9. For every text and every \<open>max_chars \<ge> 1\<close>, every chunk the segmenter emits has at
  most \<open>max_chars\<close> characters, except a chunk that is one whole word of the text longer
  than \<open>max_chars\<close>.
\<close>

theorem chunk_text_bounded:
  assumes "1 \<le> max_chars" and "c \<in> set (chunk_text text max_chars)"
  shows "int (length c) \<le> max_chars \<or>
         (c \<in> set (str_split text) \<and> max_chars < int (length c))"
proof -
  obtain chunks cur where loop: "chunk_loop max_chars (str_split text) [] [] = (chunks, cur)"
    by (cases "chunk_loop max_chars (str_split text) [] []")
  have inv: "(\<forall>c\<in>set chunks. int (length c) \<le> max_chars \<or> c \<in> set (str_split text)) \<and>
         (int (length (str_join '' '' cur)) \<le> max_chars \<or> (\<exists>w\<in>set (str_split text). cur = [w]))"
    using chunk_loop_bound[OF loop, of "set (str_split text)"] assms(1) by simp
  have "c \<in> set chunks \<or> c = str_join '' '' cur"
    using assms(2) loop by (auto simp: chunk_text_def split: if_splits)
  then have "int (length c) \<le> max_chars \<or> c \<in> set (str_split text)"
    using inv by auto
  then show ?thesis by linarith
qed

theorem chunk_text_bounded_witness:
  "(1::int) \<le> 3 \<and> ''hello'' \<in> set (chunk_text ''a hello b c'' 3) \<and>
   ''hello'' \<in> set (str_split ''a hello b c'') \<and> (3::int) < int (length ''hello'') \<and>
   ''b c'' \<in> set (chunk_text ''a hello b c'' 3) \<and> int (length ''b c'') \<le> 3"
proof -
  have n: "(1::int) \<le> 3" by simp
  have chunks: "chunk_text ''a hello b c'' 3 = [''a'', ''hello'', ''b c'']"
    by (simp add: chunk_text_def str_split_def isspace_def)
  have m1: "''hello'' \<in> set (chunk_text ''a hello b c'' 3)"
    and m2: "''b c'' \<in> set (chunk_text ''a hello b c'' 3)"
    unfolding chunks by simp_all
  from chunk_text_bounded[OF n m1] chunk_text_bounded[OF n m2] n m1 m2
  show ?thesis by simp
qed

section \<open>Properties of the vector index service\<close>

text \<open>Neither operation lets an exception reach its caller, whatever the client does.\<close>

lemma search_similar_returns:
  "\<exists>results. search_similar client collection_name query_vector limit filter_arg st = Inr results"
  by (simp add: search_similar_def try_except_def split: sum.splits)

lemma upsert_vectors_returns_bool:
  "\<exists>b st'. upsert_vectors client uuid4 collection_name chunks st = (Inr b, st')"
  by (auto simp: upsert_vectors_def split: sum.splits prod.splits)

text \<open>What the point-building loop returns: the embeddings, under the identifiers drawn in order.\<close>

lemma build_points_result:
  "build_points uuid4 i chunks acc = Inr pts \<Longrightarrow>
     (\<forall>c\<in>set chunks. chunk_embedding c \<noteq> None) \<and>
     map point_vector pts = map point_vector acc @ map (\<lambda>c. the (chunk_embedding c)) chunks \<and>
     map point_id pts = map point_id acc @ map uuid4 [i..<i + length chunks]"
proof (induction chunks arbitrary: i acc)
  case Nil
  then show ?case by simp
next
  case (Cons c cs)
  then obtain v where v: "chunk_embedding c = Some v" by (cases "chunk_embedding c") auto
  with Cons.prems have "build_points uuid4 (Suc i) cs (acc @ [\<lparr>point_id = uuid4 i, point_vector = v,
               point_payload =
                 [(''pdf_id'', dict_get (chunk_metadata c) ''pdf_id'' (StrV [])),
                  (''content'', StrV (chunk_content c)),
                  (''page_number'', IntV (chunk_page_number c)),
                  (''source'', dict_get (chunk_metadata c) ''source'' (StrV [])),
                  (''chunk_index'', dict_get (chunk_metadata c) ''chunk_index'' (IntV 0))]\<rparr>]) = Inr pts"
    by simp
  from Cons.IH[OF this]
  have ih: "(\<forall>c\<in>set cs. chunk_embedding c \<noteq> None) \<and>
     map point_vector pts = map point_vector acc @ v # map (\<lambda>c. the (chunk_embedding c)) cs \<and>
     map point_id pts = map point_id acc @ uuid4 i # map uuid4 [Suc i..<Suc i + length cs]"
    by simp
  have "[i..<i + length (c # cs)] = i # [Suc i..<Suc i + length cs]"
    by (simp add: upt_conv_Cons del: upt_Suc)
  with ih v show ?case by (simp del: upt_Suc)
qed

lemma build_points_succeeds:
  "\<forall>c\<in>set chunks. chunk_embedding c \<noteq> None \<Longrightarrow> \<exists>pts. build_points uuid4 i chunks acc = Inr pts"
  by (induction chunks arbitrary: i acc) auto

lemma foldl_put_point_fresh:
  "distinct (map point_id pts) \<Longrightarrow> set (map point_id pts) \<inter> set (map point_id ps) = {} \<Longrightarrow>
   foldl put_point ps pts = ps @ pts"
proof (induction pts arbitrary: ps)
  case Nil
  then show ?case by simp
next
  case (Cons p pts)
  have fresh: "point_id p \<notin> set (map point_id ps)" using Cons.prems(2) by auto
  then have step: "put_point ps p = ps @ [p]" by (simp add: put_point_def)
  have "foldl put_point (ps @ [p]) pts = (ps @ [p]) @ pts"
    using Cons.prems by (intro Cons.IH) auto
  then show ?case using step by simp
qed

text \<open>
  C7. For every collection name that does not exist in the index and every query vector,
  limit and filter, \<open>search_similar\<close> returns the empty list; it returns a value, so no
  exception reaches the caller.
\<close>

theorem search_missing_collection_empty:
  assumes "st collection_name = None"
  shows "search_similar (mem_client sim on_reject) collection_name query_vector limit filter_arg st = Inr []"
  using assms by (simp add: search_similar_def try_except_def mem_client_def mem_search_def)

theorem search_missing_collection_empty_witness:
  "example_index ''missing'' = None \<and>
   search_similar (mem_client dot_product keep_valid_prefix) ''missing'' [1, 0, 0, 0] 5 None example_index = Inr []"
proof -
  have none: "example_index ''missing'' = None" by (simp add: example_index_def)
  from search_missing_collection_empty[of example_index "''missing''" dot_product keep_valid_prefix "[1, 0, 0, 0]" 5 None, OF none] none
  show ?thesis by simp
qed

text \<open>
  C2, as the code has it. When a chunk's embedding length differs from the collection's
  vector dimension (or a chunk has no embedding), \<open>upsert_vectors\<close> raises nothing: the
  index rejects the batch, the handler catches the error, and the call returns the
  boolean \<open>False\<close>. Nothing is said about what the rejected batch leaves in the index.
\<close>

theorem upsert_dimension_mismatch_returns_false:
  assumes col: "st collection_name = Some col"
    and bad: "\<exists>c\<in>set chunks. \<forall>v. chunk_embedding c = Some v \<longrightarrow> length v \<noteq> col_vector_size col"
  shows "fst (upsert_vectors (mem_client sim on_reject) uuid4 collection_name chunks st) = Inr False"
proof (cases "build_points uuid4 0 chunks []")
  case (Inl e)
  then show ?thesis by (simp add: upsert_vectors_def)
next
  case (Inr pts)
  from build_points_result[OF Inr]
  have some: "\<forall>c\<in>set chunks. chunk_embedding c \<noteq> None"
    and vecs: "map point_vector pts = map (\<lambda>c. the (chunk_embedding c)) chunks" by auto
  from bad obtain c where c: "c \<in> set chunks" "\<forall>v. chunk_embedding c = Some v \<longrightarrow> length v \<noteq> col_vector_size col"
    by blast
  with some obtain v where v: "chunk_embedding c = Some v" "length v \<noteq> col_vector_size col" by auto
  have "v \<in> set (map point_vector pts)" using c(1) v(1) vecs by force
  then obtain p where "p \<in> set pts" "point_vector p = v" by auto
  with v(2) have "\<not> list_all (\<lambda>p. length (point_vector p) = col_vector_size col) pts"
    by (auto simp: list_all_iff)
  then show ?thesis using Inr col
    by (simp add: upsert_vectors_def mem_client_def mem_upsert_def)
qed

theorem upsert_dimension_mismatch_returns_false_witness:
  "example_index ''docs'' = Some example_collection \<and>
   length [1, 2, 3 :: real] \<noteq> col_vector_size example_collection \<and>
   fst (upsert_vectors (mem_client dot_product keep_valid_prefix) uuid_a ''docs''
          [example_chunk4, example_chunk3] example_index) = Inr False"
proof -
  have col: "example_index ''docs'' = Some example_collection"
    by (simp add: example_index_def)
  have bad: "\<exists>c\<in>set [example_chunk4, example_chunk3]. \<forall>v. chunk_embedding c = Some v \<longrightarrow> length v \<noteq> col_vector_size example_collection"
    by (simp add: example_chunk3_def example_collection_def)
  from upsert_dimension_mismatch_returns_false[of example_index "''docs''" example_collection
      "[example_chunk4, example_chunk3]" dot_product keep_valid_prefix uuid_a, OF col bad] col
  show ?thesis by (simp add: example_collection_def)
qed

text \<open>
  The claim as stated (an explicit \<open>DimensionMismatch\<close> error, not a boolean) fails on a
  collection of dimension 4 and a chunk with an embedding of length 3: the call returns
  \<open>False\<close>.
\<close>

theorem upsert_mismatch_counterexample:
  "fst (upsert_vectors (mem_client dot_product keep_valid_prefix) uuid_a ''docs''
          [example_chunk3] example_index) = Inr False"
  by (simp add: upsert_vectors_def mem_client_def mem_upsert_def example_index_def example_chunk3_def
      example_collection_def)

text \<open>
  C6, as the code has it. Each call of \<open>upsert_vectors\<close> stores one new point per chunk
  under the identifier freshly drawn for it: when the collection exists, every embedding
  has its dimension, and the identifiers drawn are distinct and not yet in the
  collection, the call returns \<open>True\<close> and the collection's points are the old ones
  followed by one new point per chunk. No point is keyed by the chunk, so a repeated call
  with the same chunks stores them again.
\<close>

theorem upsert_adds_fresh_points:
  assumes col: "st collection_name = Some col"
    and dims: "\<forall>c\<in>set chunks. \<exists>v. chunk_embedding c = Some v \<and> length v = col_vector_size col"
    and fresh: "distinct (map uuid4 [0..<length chunks])"
               "set (map uuid4 [0..<length chunks]) \<inter> set (map point_id (col_points col)) = {}"
  shows "\<exists>pts. length pts = length chunks \<and> map point_id pts = map uuid4 [0..<length chunks] \<and>
           upsert_vectors (mem_client sim on_reject) uuid4 collection_name chunks st =
             (Inr True, st(collection_name \<mapsto> col\<lparr>col_points := col_points col @ pts\<rparr>))"
proof -
  from dims have "\<forall>c\<in>set chunks. chunk_embedding c \<noteq> None" by auto
  from build_points_succeeds[OF this] obtain pts where pts: "build_points uuid4 0 chunks [] = Inr pts"
    by blast
  from build_points_result[OF pts]
  have vecs: "map point_vector pts = map (\<lambda>c. the (chunk_embedding c)) chunks"
    and ids: "map point_id pts = map uuid4 [0..<length chunks]" by auto
  have len: "length pts = length chunks" using ids by (metis length_map length_upt minus_nat.diff_0)
  have "\<forall>v\<in>set (map point_vector pts). length v = col_vector_size col"
    unfolding vecs using dims by auto
  then have ok: "list_all (\<lambda>p. length (point_vector p) = col_vector_size col) pts"
    by (auto simp: list_all_iff)
  have "foldl put_point (col_points col) pts = col_points col @ pts"
    using fresh ids by (intro foldl_put_point_fresh) auto
  then have "upsert_vectors (mem_client sim on_reject) uuid4 collection_name chunks st =
             (Inr True, st(collection_name \<mapsto> col\<lparr>col_points := col_points col @ pts\<rparr>))"
    using pts col ok by (simp add: upsert_vectors_def mem_client_def mem_upsert_def)
  with len ids show ?thesis by blast
qed

theorem upsert_adds_fresh_points_witness:
  "\<exists>pts. length pts = 2 \<and> map point_id pts = [''a'', ''a0''] \<and>
     upsert_vectors (mem_client dot_product keep_valid_prefix) uuid_a ''docs'' [example_chunk4, example_chunk4] example_index =
       (Inr True, example_index(''docs'' \<mapsto> example_collection\<lparr>col_points := pts\<rparr>))"
proof -
  have col: "example_index ''docs'' = Some example_collection"
    by (simp add: example_index_def)
  have dims: "\<forall>c\<in>set [example_chunk4, example_chunk4]. \<exists>v. chunk_embedding c = Some v \<and> length v = col_vector_size example_collection"
    by (simp add: example_chunk4_def example_collection_def)
  have ids: "map uuid_a [0..<length [example_chunk4, example_chunk4]] = [''a'', ''a0'']"
    by (simp add: uuid_a_def upt_rec)
  have fresh: "distinct (map uuid_a [0..<length [example_chunk4, example_chunk4]])"
    "set (map uuid_a [0..<length [example_chunk4, example_chunk4]]) \<inter> set (map point_id (col_points example_collection)) = {}"
    unfolding ids by (simp_all add: example_collection_def)
  from upsert_adds_fresh_points[of example_index "''docs''" example_collection
      "[example_chunk4, example_chunk4]" uuid_a dot_product keep_valid_prefix, OF col dims fresh]
  show ?thesis unfolding ids by (simp add: example_collection_def numeral_2_eq_2)
qed

text \<open>
  The claim as stated (a second call with the same chunks leaves the index as the first
  call left it) fails: after the second call the collection holds two points for the one
  chunk.
\<close>

theorem upsert_twice_counterexample:
  "snd (upsert_vectors (mem_client dot_product keep_valid_prefix) uuid_b ''docs'' [example_chunk4]
          (snd (upsert_vectors (mem_client dot_product keep_valid_prefix) uuid_a ''docs'' [example_chunk4] example_index)))
   \<noteq> snd (upsert_vectors (mem_client dot_product keep_valid_prefix) uuid_a ''docs'' [example_chunk4] example_index)"
proof -
  let ?once = "snd (upsert_vectors (mem_client dot_product keep_valid_prefix) uuid_a ''docs'' [example_chunk4] example_index)"
  let ?twice = "snd (upsert_vectors (mem_client dot_product keep_valid_prefix) uuid_b ''docs'' [example_chunk4] ?once)"
  have one: "map_option (\<lambda>col. length (col_points col)) (?once ''docs'') = Some 1"
    by (simp add: upsert_vectors_def mem_client_def mem_upsert_def example_index_def example_chunk4_def
      example_collection_def put_point_def uuid_a_def dict_get_def)
  have two: "map_option (\<lambda>col. length (col_points col)) (?twice ''docs'') = Some 2"
    by (simp add: upsert_vectors_def mem_client_def mem_upsert_def example_index_def example_chunk4_def
      example_collection_def put_point_def uuid_a_def uuid_b_def dict_get_def)
  show ?thesis
  proof
    assume eq: "?twice = ?once"
    from two have "map_option (\<lambda>col. length (col_points col)) (?once ''docs'') = Some 2"
      unfolding eq .
    from this[symmetric] one have "Some (2::nat) = Some 1" by (rule trans)
    then show False by simp
  qed
qed

section \<open>Properties of the retrieval context builder\<close>

lemma str_contains_sublist: "str_contains a b = sublist a b"
  by (induction b) (auto simp: sublist_Cons_right)

lemma str_contains_infix: "str_contains a (p @ a @ s)"
  by (simp add: str_contains_sublist sublist_appendI)

lemma get_conversation_context_returns:
  "\<exists>context. get_conversation_context encode client st QDRANT_COLLECTION pdf_id query = Inr context"
  by (simp add: get_conversation_context_def try_except_def split: sum.splits option.splits)

text \<open>
  C8, as the code has it. \<open>_get_conversation_context\<close> never raises. With no query
  (\<open>None\<close> or the empty string) it returns the placeholder
  \<open>Context from PDF <pdf_id> about various topics.\<close>, which contains the document
  reference. When the embedding step raises it returns the fixed text
  \<open>General context about the PDF content.\<close>, which does not name the document. When the
  search fails, \<open>search_similar\<close> has already turned the failure into an empty result, and
  the context is the empty string.
\<close>

theorem context_fallbacks:
  "((query = None \<or> query = Some []) \<longrightarrow>
      get_conversation_context encode client st QDRANT_COLLECTION pdf_id query =
        Inr (''Context from PDF '' @ pdf_id @ '' about various topics.'') \<and>
      str_contains pdf_id (''Context from PDF '' @ pdf_id @ '' about various topics.'')) \<and>
   (\<forall>q e. query = Some q \<and> q \<noteq> [] \<and> encode q = Inl e \<longrightarrow>
      get_conversation_context encode client st QDRANT_COLLECTION pdf_id query =
        Inr ''General context about the PDF content.'') \<and>
   (\<forall>q v e. query = Some q \<and> q \<noteq> [] \<and> encode q = Inr v \<and>
        client_search client QDRANT_COLLECTION v 5 None st = Inl e \<longrightarrow>
      get_conversation_context encode client st QDRANT_COLLECTION pdf_id query = Inr []) \<and>
   (\<exists>context. get_conversation_context encode client st QDRANT_COLLECTION pdf_id query = Inr context)"
proof (intro conjI impI allI)
  assume "query = None \<or> query = Some []"
  then show "get_conversation_context encode client st QDRANT_COLLECTION pdf_id query =
        Inr (''Context from PDF '' @ pdf_id @ '' about various topics.'')"
    by (auto simp: get_conversation_context_def try_except_def)
next
  show "str_contains pdf_id (''Context from PDF '' @ pdf_id @ '' about various topics.'')"
    by (rule str_contains_infix)
next
  fix q e assume "query = Some q \<and> q \<noteq> [] \<and> encode q = Inl e"
  then show "get_conversation_context encode client st QDRANT_COLLECTION pdf_id query =
        Inr ''General context about the PDF content.''"
    by (simp add: get_conversation_context_def try_except_def)
next
  fix q v e assume a: "query = Some q \<and> q \<noteq> [] \<and> encode q = Inr v \<and>
        client_search client QDRANT_COLLECTION v 5 None st = Inl e"
  then have "search_similar client QDRANT_COLLECTION v 5 None st = Inr []"
    by (simp add: search_similar_def try_except_def)
  with a show "get_conversation_context encode client st QDRANT_COLLECTION pdf_id query = Inr []"
    by (simp add: get_conversation_context_def try_except_def)
next
  show "\<exists>context. get_conversation_context encode client st QDRANT_COLLECTION pdf_id query = Inr context"
    by (rule get_conversation_context_returns)
qed

theorem context_fallbacks_witness:
  "get_conversation_context failing_encode (mem_client dot_product keep_valid_prefix) example_index ''podcast_chunks''
     ''doc-1'' None = Inr ''Context from PDF doc-1 about various topics.'' \<and>
   str_contains ''doc-1'' ''Context from PDF doc-1 about various topics.'' \<and>
   get_conversation_context failing_encode (mem_client dot_product keep_valid_prefix) example_index ''podcast_chunks''
     ''doc-1'' (Some ''topic'') = Inr ''General context about the PDF content.'' \<and>
   get_conversation_context example_encode (mem_client dot_product keep_valid_prefix) example_index ''podcast_chunks''
     ''doc-1'' (Some ''topic'') = Inr []"
proof -
  have enc: "failing_encode ''topic'' = Inl (Raise BackendError ''model not available'')"
    by (simp add: failing_encode_def)
  have srch: "example_encode ''topic'' = Inr [1, 0, 0, 0] \<and>
     client_search (mem_client dot_product keep_valid_prefix) ''podcast_chunks'' [1, 0, 0, 0] 5 None example_index =
       Inl (Raise BackendError ''Not found: collection does not exist'')"
    by (simp add: example_encode_def mem_client_def mem_search_def example_index_def)
  from context_fallbacks[of None failing_encode "mem_client dot_product keep_valid_prefix" example_index "''podcast_chunks''" "''doc-1''"]
  have a: "get_conversation_context failing_encode (mem_client dot_product keep_valid_prefix) example_index ''podcast_chunks''
     ''doc-1'' None = Inr ''Context from PDF doc-1 about various topics.''"
    and b: "str_contains ''doc-1'' ''Context from PDF doc-1 about various topics.''"
    by simp_all
  from context_fallbacks[of "Some ''topic''" failing_encode "mem_client dot_product keep_valid_prefix" example_index "''podcast_chunks''" "''doc-1''"] enc
  have c: "get_conversation_context failing_encode (mem_client dot_product keep_valid_prefix) example_index ''podcast_chunks''
     ''doc-1'' (Some ''topic'') = Inr ''General context about the PDF content.''"
    by simp
  from context_fallbacks[of "Some ''topic''" example_encode "mem_client dot_product keep_valid_prefix" example_index "''podcast_chunks''" "''doc-1''"] srch
  have d: "get_conversation_context example_encode (mem_client dot_product keep_valid_prefix) example_index ''podcast_chunks''
     ''doc-1'' (Some ''topic'') = Inr []"
    by simp
  from a b c d show ?thesis by simp
qed

text \<open>
  The claim as stated (every fallback is a placeholder containing the document reference)
  fails when the embedding step raises: the placeholder returned does not contain the
  document reference \<open>doc-1\<close>.
\<close>

theorem context_placeholder_counterexample:
  "get_conversation_context failing_encode (mem_client dot_product keep_valid_prefix) example_index ''podcast_chunks''
     ''doc-1'' (Some ''topic'') = Inr ''General context about the PDF content.'' \<and>
   \<not> str_contains ''doc-1'' ''General context about the PDF content.''"
  by (simp add: get_conversation_context_def try_except_def failing_encode_def)


section \<open>Properties of the dialogue synthesizer\<close>

text \<open>A turn always yields a text: the generated one, stripped, or the apology.\<close>

lemma generate_agent_response_returns:
  "\<exists>response. generate_agent_response generate_content agent context conversation_history = Inr response"
  by (simp add: generate_agent_response_def try_except_def split: sum.splits)

lemma generate_agent_response_apology:
  "generate_content (agent_prompt agent context (history_text conversation_history)) = Inl e \<Longrightarrow>
   generate_agent_response generate_content agent context conversation_history =
     Inr (''Sorry, I encountered an error generating a response. '' @ exc_str e)"
  by (simp add: generate_agent_response_def try_except_def)

lemma exchange_loop_step:
  assumes "generate_agent_response (model k) explainer context conversation_history = Inr r1"
    and "generate_agent_response (model (Suc k)) curious context
           (conversation_history @ [\<lparr>msg_agent_id = agent_id explainer, msg_content = r1, msg_is_user_message = False\<rparr>]) = Inr r2"
  shows "exchange_loop model explainer curious context (Suc n) k messages conversation_history =
      exchange_loop model explainer curious context n (Suc (Suc k))
        (messages @ [\<lparr>msg_agent_id = agent_id explainer, msg_content = r1, msg_is_user_message = False\<rparr>,
                     \<lparr>msg_agent_id = agent_id curious, msg_content = r2, msg_is_user_message = False\<rparr>])
        (conversation_history @ [\<lparr>msg_agent_id = agent_id explainer, msg_content = r1, msg_is_user_message = False\<rparr>,
                     \<lparr>msg_agent_id = agent_id curious, msg_content = r2, msg_is_user_message = False\<rparr>])"
  using assms by (simp add: Let_def)

text \<open>The loop returns, and appends the explainer's and the curious agent's message in each round.\<close>

lemma exchange_loop_ids:
  "\<exists>res. exchange_loop model explainer curious context n k messages conversation_history = Inr res \<and>
     map msg_agent_id res =
       map msg_agent_id messages @ concat (replicate n [agent_id explainer, agent_id curious])"
proof (induction n arbitrary: k messages conversation_history)
  case 0
  then show ?case by simp
next
  case (Suc n)
  obtain r1 where r1: "generate_agent_response (model k) explainer context conversation_history = Inr r1"
    using generate_agent_response_returns by blast
  define m1 where "m1 = \<lparr>msg_agent_id = agent_id explainer, msg_content = r1, msg_is_user_message = False\<rparr>"
  obtain r2 where r2: "generate_agent_response (model (Suc k)) curious context (conversation_history @ [m1]) = Inr r2"
    using generate_agent_response_returns by blast
  define m2 where "m2 = \<lparr>msg_agent_id = agent_id curious, msg_content = r2, msg_is_user_message = False\<rparr>"
  have step: "exchange_loop model explainer curious context (Suc n) k messages conversation_history =
      exchange_loop model explainer curious context n (Suc (Suc k)) (messages @ [m1, m2]) (conversation_history @ [m1, m2])"
    using r1 r2 by (simp add: m1_def m2_def Let_def)
  from Suc.IH[of "Suc (Suc k)" "messages @ [m1, m2]" "conversation_history @ [m1, m2]"]
  show ?case unfolding step by (auto simp: m1_def m2_def)
qed

text \<open>
  Every message the loop appends is the outcome of that turn's own call, made on the
  messages before it.
\<close>

lemma exchange_loop_turns:
  assumes "exchange_loop model explainer curious context n k msgs msgs = Inr res"
  shows "take (length msgs) res = msgs \<and> length res = length msgs + 2 * n \<and>
     (\<forall>t<2 * n. Inr (msg_content (res ! (length msgs + t))) =
        generate_agent_response (model (k + t)) (if even t then explainer else curious) context
          (take (length msgs + t) res))"
  using assms
proof (induction n arbitrary: k msgs)
  case 0
  then show ?case by simp
next
  case (Suc n)
  obtain r1 where r1: "generate_agent_response (model k) explainer context msgs = Inr r1"
    using generate_agent_response_returns by blast
  define m1 where "m1 = \<lparr>msg_agent_id = agent_id explainer, msg_content = r1, msg_is_user_message = False\<rparr>"
  obtain r2 where r2: "generate_agent_response (model (Suc k)) curious context (msgs @ [m1]) = Inr r2"
    using generate_agent_response_returns by blast
  define m2 where "m2 = \<lparr>msg_agent_id = agent_id curious, msg_content = r2, msg_is_user_message = False\<rparr>"
  have "exchange_loop model explainer curious context n (Suc (Suc k)) (msgs @ [m1, m2]) (msgs @ [m1, m2]) = Inr res"
    using exchange_loop_step[OF r1 r2[unfolded m1_def], of n msgs] Suc.prems
    by (simp add: m1_def m2_def)
  from Suc.IH[OF this]
  have tk: "take (length msgs + 2) res = msgs @ [m1, m2]"
    and len: "length res = length msgs + 2 + 2 * n"
    and later: "\<And>t. t < 2 * n \<Longrightarrow> Inr (msg_content (res ! (length msgs + 2 + t))) =
        generate_agent_response (model (Suc (Suc k) + t)) (if even t then explainer else curious) context
          (take (length msgs + 2 + t) res)"
    by simp_all
  have tk0: "take (length msgs) res = msgs"
  proof -
    have "take (length msgs) res = take (length msgs) (take (length msgs + 2) res)" by simp
    also have "\<dots> = msgs" unfolding tk by simp
    finally show ?thesis .
  qed
  have tk1: "take (length msgs + 1) res = msgs @ [m1]"
  proof -
    have "take (length msgs + 1) res = take (length msgs + 1) (take (length msgs + 2) res)" by simp
    also have "\<dots> = msgs @ [m1]" unfolding tk by simp
    finally show ?thesis .
  qed
  have n0: "res ! length msgs = m1"
  proof -
    have "res ! length msgs = take (length msgs + 2) res ! length msgs" by simp
    also have "\<dots> = m1" unfolding tk by simp
    finally show ?thesis .
  qed
  have n1: "res ! (length msgs + 1) = m2"
  proof -
    have "res ! (length msgs + 1) = take (length msgs + 2) res ! (length msgs + 1)" by simp
    also have "\<dots> = m2" unfolding tk by (simp add: nth_append)
    finally show ?thesis .
  qed
  have turns: "Inr (msg_content (res ! (length msgs + t))) =
        generate_agent_response (model (k + t)) (if even t then explainer else curious) context
          (take (length msgs + t) res)" if t: "t < 2 * Suc n" for t
  proof -
    consider "t = 0" | "t = 1" | "2 \<le> t" by linarith
    then show ?thesis
    proof cases
      case 1
      then show ?thesis using n0 tk0 r1 by (simp add: m1_def)
    next
      case 2
      then show ?thesis using n1 tk1 r2 by (simp add: m2_def)
    next
      case 3
      then obtain t' where t': "t = 2 + t'" using le_Suc_ex by blast
      with t have "t' < 2 * n" by simp
      from later[OF this] show ?thesis using t' by (simp add: add.assoc add.commute add.left_commute)
    qed
  qed
  show ?case using tk0 len turns by simp
qed

lemma find_role_Some:
  "a \<in> set agents \<Longrightarrow> agent_role a = r \<Longrightarrow> \<exists>b. find (\<lambda>a. agent_role a = r) agents = Some b"
  by (cases "find (\<lambda>a. agent_role a = r) agents") (auto simp: find_None_iff)

lemma flow_with_agents:
  assumes "find (\<lambda>a. agent_role a = ''explainer'') agents = Some explainer"
    and "find (\<lambda>a. agent_role a = ''curious'') agents = Some curious"
  shows "generate_conversation_flow model agents context query =
     exchange_loop model explainer curious context 5 0
       [\<lparr>msg_agent_id = agent_id curious,
         msg_content = ''What can you tell me about '' @ query_or query ''this PDF content'' @ ''?'',
         msg_is_user_message = False\<rparr>]
       [\<lparr>msg_agent_id = agent_id curious,
         msg_content = ''What can you tell me about '' @ query_or query ''this PDF content'' @ ''?'',
         msg_is_user_message = False\<rparr>]"
  using assms by (simp add: generate_conversation_flow_def Let_def)

lemma flow_all_turns:
  assumes "find (\<lambda>a. agent_role a = ''explainer'') agents = Some explainer"
    and "find (\<lambda>a. agent_role a = ''curious'') agents = Some curious"
  shows "\<exists>msgs. generate_conversation_flow model agents context query = Inr msgs \<and>
           length msgs = 11 \<and>
           (\<forall>t<10. Inr (msg_content (msgs ! Suc t)) =
              generate_agent_response (model t) (if even t then explainer else curious) context
                (take (Suc t) msgs))"
proof -
  define m0 where "m0 = \<lparr>msg_agent_id = agent_id curious,
         msg_content = ''What can you tell me about '' @ query_or query ''this PDF content'' @ ''?'',
         msg_is_user_message = False\<rparr>"
  from exchange_loop_ids[of model explainer curious "context" 5 0 "[m0]" "[m0]"]
  obtain msgs where msgs: "exchange_loop model explainer curious context 5 0 [m0] [m0] = Inr msgs"
    by blast
  have flow: "generate_conversation_flow model agents context query = Inr msgs"
    using flow_with_agents[OF assms] msgs by (simp add: m0_def)
  from exchange_loop_turns[OF msgs]
  have len: "length msgs = 11"
    and turns: "\<And>t. t < 10 \<Longrightarrow> Inr (msg_content (msgs ! Suc t)) =
        generate_agent_response (model t) (if even t then explainer else curious) context
          (take (Suc t) msgs)"
    by simp_all
  from flow len turns show ?thesis by blast
qed

text \<open>
  C3. For every list of agents with an explainer and a curious agent, every language
  model, context and query, \<open>_generate_conversation_flow\<close> (five rounds) returns exactly
  11 messages, whose agents alternate between the curious agent and the explainer,
  starting with the curious agent.
\<close>

theorem flow_eleven_alternating:
  assumes "e \<in> set agents" and "agent_role e = ''explainer''"
    and "c \<in> set agents" and "agent_role c = ''curious''"
  shows "\<exists>explainer curious msgs.
           find (\<lambda>a. agent_role a = ''explainer'') agents = Some explainer \<and>
           find (\<lambda>a. agent_role a = ''curious'') agents = Some curious \<and>
           generate_conversation_flow model agents context query = Inr msgs \<and>
           length msgs = 11 \<and>
           map msg_agent_id msgs =
             [agent_id curious, agent_id explainer, agent_id curious, agent_id explainer,
              agent_id curious, agent_id explainer, agent_id curious, agent_id explainer,
              agent_id curious, agent_id explainer, agent_id curious]"
proof -
  from find_role_Some[OF assms(1,2)] obtain explainer where
    ex: "find (\<lambda>a. agent_role a = ''explainer'') agents = Some explainer" by blast
  from find_role_Some[OF assms(3,4)] obtain curious where
    cu: "find (\<lambda>a. agent_role a = ''curious'') agents = Some curious" by blast
  define m0 where "m0 = \<lparr>msg_agent_id = agent_id curious,
         msg_content = ''What can you tell me about '' @ query_or query ''this PDF content'' @ ''?'',
         msg_is_user_message = False\<rparr>"
  from exchange_loop_ids[of model explainer curious "context" 5 0 "[m0]" "[m0]"]
  obtain msgs where msgs: "exchange_loop model explainer curious context 5 0 [m0] [m0] = Inr msgs"
    and ids: "map msg_agent_id msgs = map msg_agent_id [m0] @ concat (replicate 5 [agent_id explainer, agent_id curious])"
    by blast
  have flow: "generate_conversation_flow model agents context query = Inr msgs"
    using flow_with_agents[OF ex cu] msgs by (simp add: m0_def)
  have ids': "map msg_agent_id msgs =
             [agent_id curious, agent_id explainer, agent_id curious, agent_id explainer,
              agent_id curious, agent_id explainer, agent_id curious, agent_id explainer,
              agent_id curious, agent_id explainer, agent_id curious]"
    using ids by (simp add: m0_def eval_nat_numeral)
  then have "length (map msg_agent_id msgs) = 11" by simp
  then have len: "length msgs = 11" by simp
  show ?thesis
    by (rule exI[of _ explainer], rule exI[of _ curious], rule exI[of _ msgs])
       (simp add: ex cu flow ids' len)
qed

theorem flow_eleven_alternating_witness:
  "\<exists>msgs. generate_conversation_flow failing_model example_agents ''ctx'' None = Inr msgs \<and>
     length msgs = 11 \<and>
     map msg_agent_id msgs =
       [''c1'', ''e1'', ''c1'', ''e1'', ''c1'', ''e1'', ''c1'', ''e1'', ''c1'', ''e1'', ''c1'']"
proof -
  have e: "example_agents ! 0 \<in> set example_agents" "agent_role (example_agents ! 0) = ''explainer''"
    and c: "example_agents ! 1 \<in> set example_agents" "agent_role (example_agents ! 1) = ''curious''"
    by (simp_all add: example_agents_def)
  from flow_eleven_alternating[OF e c, of failing_model "''ctx''" None]
  show ?thesis by (auto simp: example_agents_def)
qed

text \<open>
  C4. When no agent has role \<open>curious\<close>, or none has role \<open>explainer\<close>,
  \<open>_generate_conversation_flow\<close> raises the error
  \<open>Explainer and curious agents must be present\<close> whatever the language model would
  answer, so before any message is produced; and \<open>generate_podcast_conversation\<close>, having
  built such agents, raises it onward and returns no conversation.
\<close>

theorem missing_agent_raises:
  "((\<forall>a\<in>set agents. agent_role a \<noteq> ''curious'') \<or> (\<forall>a\<in>set agents. agent_role a \<noteq> ''explainer'') \<longrightarrow>
      generate_conversation_flow model agents context query =
        Inl (Raise ValueError ''Explainer and curious agents must be present'')) \<and>
   (init_agents uuid4 0 (req_agent_configs request) [] = Inr agents \<and>
    ((\<forall>a\<in>set agents. agent_role a \<noteq> ''curious'') \<or> (\<forall>a\<in>set agents. agent_role a \<noteq> ''explainer'')) \<longrightarrow>
      generate_podcast_conversation model encode client st QDRANT_COLLECTION uuid4 request =
        Inl (Raise PlainException
          ''Failed to generate podcast conversation: Explainer and curious agents must be present''))"
proof -
  have flow: "generate_conversation_flow model agents ctx q =
        Inl (Raise ValueError ''Explainer and curious agents must be present'')"
    if "(\<forall>a\<in>set agents. agent_role a \<noteq> ''curious'') \<or> (\<forall>a\<in>set agents. agent_role a \<noteq> ''explainer'')"
    for ctx q
  proof -
    from that have "find (\<lambda>a. agent_role a = ''curious'') agents = None \<or>
                    find (\<lambda>a. agent_role a = ''explainer'') agents = None"
      by (auto simp: find_None_iff)
    then show ?thesis
      by (auto simp: generate_conversation_flow_def split: option.splits)
  qed
  have top: "generate_podcast_conversation model encode client st QDRANT_COLLECTION uuid4 request =
        Inl (Raise PlainException
          ''Failed to generate podcast conversation: Explainer and curious agents must be present'')"
    if ag: "init_agents uuid4 0 (req_agent_configs request) [] = Inr agents"
      and lack: "(\<forall>a\<in>set agents. agent_role a \<noteq> ''curious'') \<or> (\<forall>a\<in>set agents. agent_role a \<noteq> ''explainer'')"
  proof -
    obtain ctx where ctx: "get_conversation_context encode client st QDRANT_COLLECTION
                    (req_pdf_id request) (req_query request) = Inr ctx"
      using get_conversation_context_returns by blast
    show ?thesis
      using ag ctx flow[OF lack, of ctx "req_query request"]
      by (simp add: generate_podcast_conversation_def try_except_def)
  qed
  from flow top show ?thesis by blast
qed

theorem missing_agent_raises_witness:
  "generate_conversation_flow failing_model explainer_only ''ctx'' None =
     Inl (Raise ValueError ''Explainer and curious agents must be present'') \<and>
   generate_podcast_conversation failing_model failing_encode (mem_client dot_product keep_valid_prefix) example_index
       ''podcast_chunks'' uuid_a request_without_curious =
     Inl (Raise PlainException
       ''Failed to generate podcast conversation: Explainer and curious agents must be present'')"
proof -
  define agents where "agents =
     [\<lparr>agent_id = ''a'', agent_name = ''Ann'', agent_role = ''explainer'',
       agent_personality = ''calm'', agent_voice_id = ''default''\<rparr>,
      \<lparr>agent_id = ''a0'', agent_name = ''You'', agent_role = ''user'',
       agent_personality = ''asks'', agent_voice_id = ''default''\<rparr>]"
  have lack1: "(\<forall>a\<in>set explainer_only. agent_role a \<noteq> ''curious'') \<or>
               (\<forall>a\<in>set explainer_only. agent_role a \<noteq> ''explainer'')"
    by (simp add: explainer_only_def)
  have built: "init_agents uuid_a 0 (req_agent_configs request_without_curious) [] = Inr agents"
    by (simp add: request_without_curious_def agents_def dict_item_def dict_get_def uuid_a_def)
  have lack2: "(\<forall>a\<in>set agents. agent_role a \<noteq> ''curious'') \<or>
               (\<forall>a\<in>set agents. agent_role a \<noteq> ''explainer'')"
    by (simp add: agents_def)
  from missing_agent_raises[of explainer_only failing_model "''ctx''" None] lack1
  have a: "generate_conversation_flow failing_model explainer_only ''ctx'' None =
     Inl (Raise ValueError ''Explainer and curious agents must be present'')"
    by blast
  from missing_agent_raises[of agents failing_model "''ctx''" None uuid_a request_without_curious
      failing_encode "mem_client dot_product keep_valid_prefix" example_index "''podcast_chunks''"] built lack2
  have b: "generate_podcast_conversation failing_model failing_encode (mem_client dot_product keep_valid_prefix) example_index
       ''podcast_chunks'' uuid_a request_without_curious =
     Inl (Raise PlainException
       ''Failed to generate podcast conversation: Explainer and curious agents must be present'')"
    by blast
  from a b show ?thesis by simp
qed

text \<open>
  C5. With an explainer and a curious agent present, the conversation always has its 11
  messages; for each of the ten generated turns, when that turn's call of the language
  model fails, the message is the apology followed by the error text; and every turn,
  also after a failed one, is the outcome of its own call on the messages before it.
\<close>

theorem failed_turn_apology:
  assumes "find (\<lambda>a. agent_role a = ''explainer'') agents = Some explainer"
    and "find (\<lambda>a. agent_role a = ''curious'') agents = Some curious"
  shows "\<exists>msgs. generate_conversation_flow model agents context query = Inr msgs \<and>
           length msgs = 11 \<and>
           (\<forall>t<10. \<forall>e.
              model t (agent_prompt (if even t then explainer else curious) context
                         (history_text (take (Suc t) msgs))) = Inl e \<longrightarrow>
              msg_content (msgs ! Suc t) =
                ''Sorry, I encountered an error generating a response. '' @ exc_str e) \<and>
           (\<forall>t<10. Inr (msg_content (msgs ! Suc t)) =
              generate_agent_response (model t) (if even t then explainer else curious) context
                (take (Suc t) msgs))"
proof -
  from flow_all_turns[OF assms, of model "context" query]
  obtain msgs where flow: "generate_conversation_flow model agents context query = Inr msgs"
    and len: "length msgs = 11"
    and turns: "\<And>t. t < 10 \<Longrightarrow> Inr (msg_content (msgs ! Suc t)) =
        generate_agent_response (model t) (if even t then explainer else curious) context
          (take (Suc t) msgs)"
    by blast
  have apology: "msg_content (msgs ! Suc t) =
                ''Sorry, I encountered an error generating a response. '' @ exc_str e"
    if "t < 10" and "model t (agent_prompt (if even t then explainer else curious) context
                         (history_text (take (Suc t) msgs))) = Inl e" for t e
    using turns[OF that(1)]
      generate_agent_response_apology[of "model t" "if even t then explainer else curious"
        "context" "take (Suc t) msgs" e] that(2)
    by simp
  from flow len turns apology show ?thesis by blast
qed

theorem failed_turn_apology_witness:
  "\<exists>msgs. generate_conversation_flow flaky_model example_agents ''ctx'' None = Inr msgs \<and>
     length msgs = 11 \<and>
     msg_content (msgs ! Suc 2) = ''Sorry, I encountered an error generating a response. quota exceeded'' \<and>
     msg_content (msgs ! Suc 3) = ''Sure.''"
proof -
  have ex: "find (\<lambda>a. agent_role a = ''explainer'') example_agents = Some (example_agents ! 0)"
    and cu: "find (\<lambda>a. agent_role a = ''curious'') example_agents = Some (example_agents ! 1)"
    by (simp_all add: example_agents_def)
  from failed_turn_apology[OF ex cu, of flaky_model "''ctx''" None]
  obtain msgs where flow: "generate_conversation_flow flaky_model example_agents ''ctx'' None = Inr msgs"
    and len: "length msgs = 11"
    and apology: "\<And>t e. t < 10 \<Longrightarrow>
              flaky_model t (agent_prompt (if even t then example_agents ! 0 else example_agents ! 1) ''ctx''
                         (history_text (take (Suc t) msgs))) = Inl e \<Longrightarrow>
              msg_content (msgs ! Suc t) =
                ''Sorry, I encountered an error generating a response. '' @ exc_str e"
    and turns: "\<And>t. t < 10 \<Longrightarrow> Inr (msg_content (msgs ! Suc t)) =
              generate_agent_response (flaky_model t) (if even t then example_agents ! 0 else example_agents ! 1) ''ctx''
                (take (Suc t) msgs)"
    by blast
  have fails: "flaky_model 2 (agent_prompt (if even (2::nat) then example_agents ! 0 else example_agents ! 1) ''ctx''
                         (history_text (take (Suc 2) msgs))) = Inl (Raise BackendError ''quota exceeded'')"
    by (simp add: flaky_model_def)
  have m3: "msg_content (msgs ! Suc 2) = ''Sorry, I encountered an error generating a response. quota exceeded''"
    using apology[of 2, OF _ fails] by simp
  have answers: "flaky_model 3 p = Inr '' Sure. ''" for p
    by (simp add: flaky_model_def)
  have strip: "str_strip '' Sure. '' = ''Sure.''"
    by (simp add: str_strip_def isspace_def)
  have "Inr (msg_content (msgs ! Suc 3)) =
              generate_agent_response (flaky_model 3) (if even (3::nat) then example_agents ! 0 else example_agents ! 1) ''ctx''
                (take (Suc 3) msgs)"
    using turns[of 3] by simp
  then have m4: "msg_content (msgs ! Suc 3) = ''Sure.''"
    by (simp add: generate_agent_response_def try_except_def answers strip)
  from flow len m3 m4 show ?thesis by blast
qed

text \<open>
  C10. Every conversation that \<open>generate_podcast_conversation\<close> returns has status
  \<open>completed\<close>, never \<open>failed\<close>; and with well-formed agent configurations that include
  an explainer and a curious agent it does return one, with 11 messages, whatever the
  language model does, also when every call fails.
\<close>

theorem conversation_status_completed:
  "(generate_podcast_conversation model encode client st QDRANT_COLLECTION uuid4 request = Inr conv \<longrightarrow>
      conv_status conv = ''completed'' \<and> conv_status conv \<noteq> ''failed'') \<and>
   (init_agents uuid4 0 (req_agent_configs request) [] = Inr agents \<and>
    (\<exists>a\<in>set agents. agent_role a = ''explainer'') \<and> (\<exists>a\<in>set agents. agent_role a = ''curious'') \<longrightarrow>
      (\<exists>conv. generate_podcast_conversation model encode client st QDRANT_COLLECTION uuid4 request = Inr conv \<and>
         conv_status conv = ''completed'' \<and> length (conv_messages conv) = 11))"
proof (rule conjI; rule impI)
  assume "generate_podcast_conversation model encode client st QDRANT_COLLECTION uuid4 request = Inr conv"
  then have "conv_status conv = ''completed''"
    by (auto simp: generate_podcast_conversation_def try_except_def split: sum.splits)
  then show "conv_status conv = ''completed'' \<and> conv_status conv \<noteq> ''failed''" by simp
next
  assume a: "init_agents uuid4 0 (req_agent_configs request) [] = Inr agents \<and>
    (\<exists>a\<in>set agents. agent_role a = ''explainer'') \<and> (\<exists>a\<in>set agents. agent_role a = ''curious'')"
  then obtain e c where ec: "e \<in> set agents" "agent_role e = ''explainer''" "c \<in> set agents" "agent_role c = ''curious''"
    by blast
  obtain ctx where ctx: "get_conversation_context encode client st QDRANT_COLLECTION
                    (req_pdf_id request) (req_query request) = Inr ctx"
    using get_conversation_context_returns by blast
  from find_role_Some[OF ec(1,2)] obtain explainer where
    ex: "find (\<lambda>a. agent_role a = ''explainer'') agents = Some explainer" by blast
  from find_role_Some[OF ec(3,4)] obtain curious where
    cu: "find (\<lambda>a. agent_role a = ''curious'') agents = Some curious" by blast
  from flow_all_turns[OF ex cu, of model ctx "req_query request"]
  obtain msgs where msgs: "generate_conversation_flow model agents ctx (req_query request) = Inr msgs"
    "length msgs = 11" by blast
  show "\<exists>conv. generate_podcast_conversation model encode client st QDRANT_COLLECTION uuid4 request = Inr conv \<and>
         conv_status conv = ''completed'' \<and> length (conv_messages conv) = 11"
    using a ctx msgs by (simp add: generate_podcast_conversation_def try_except_def)
qed

theorem conversation_status_completed_witness:
  "\<exists>conv. generate_podcast_conversation failing_model failing_encode (mem_client dot_product keep_valid_prefix)
             example_index ''podcast_chunks'' uuid_a example_request = Inr conv \<and>
     conv_status conv = ''completed'' \<and> conv_status conv \<noteq> ''failed'' \<and>
     length (conv_messages conv) = 11"
proof -
  define agents where "agents =
     [\<lparr>agent_id = ''a'', agent_name = ''Ann'', agent_role = ''explainer'',
       agent_personality = ''calm'', agent_voice_id = ''default''\<rparr>,
      \<lparr>agent_id = ''a0'', agent_name = ''Bob'', agent_role = ''curious'',
       agent_personality = ''keen'', agent_voice_id = ''default''\<rparr>]"
  have built: "init_agents uuid_a 0 (req_agent_configs example_request) [] = Inr agents"
    by (simp add: example_request_def agents_def dict_item_def dict_get_def uuid_a_def)
  have roles: "(\<exists>a\<in>set agents. agent_role a = ''explainer'') \<and> (\<exists>a\<in>set agents. agent_role a = ''curious'')"
    by (simp add: agents_def)
  have second: "\<exists>conv. generate_podcast_conversation failing_model failing_encode (mem_client dot_product keep_valid_prefix)
             example_index ''podcast_chunks'' uuid_a example_request = Inr conv \<and>
         conv_status conv = ''completed'' \<and> length (conv_messages conv) = 11"
    using conversation_status_completed[of failing_model failing_encode "mem_client dot_product keep_valid_prefix"
        example_index "''podcast_chunks''" uuid_a example_request _ agents] built roles
    by blast
  then obtain conv where conv: "generate_podcast_conversation failing_model failing_encode (mem_client dot_product keep_valid_prefix)
             example_index ''podcast_chunks'' uuid_a example_request = Inr conv"
    and len: "length (conv_messages conv) = 11" by blast
  from conversation_status_completed[of failing_model failing_encode "mem_client dot_product keep_valid_prefix"
        example_index "''podcast_chunks''" uuid_a example_request conv agents] conv
  have "conv_status conv = ''completed'' \<and> conv_status conv \<noteq> ''failed''" by blast
  with conv len show ?thesis by blast
qed

end
